theory Spec2Isabelle
  imports Main "HOL-Library.Product_Lexorder" "HOL-Library.Multiset"
begin

section \<open>Python values used by ast_utils.py\<close>

text \<open>
  The module is Python 2 code (\<^verbatim>\<open>unicode\<close>, the \<^verbatim>\<open>print\<close> statement). A
  \<^verbatim>\<open>unicode\<close> string is modelled as the list of its code points, a position as the pair
  \<open>(lineno, col_offset)\<close> of Python integers. With \<open>Product_Lexorder\<close> the order on
  positions is the lexicographic one, which is also how Python compares tuples.
  An exception is a value of type \<open>error\<close>; a function that may raise returns
  \<open>error + 'a\<close>.
\<close>

type_synonym unicode = "nat list"
type_synonym pos = "int \<times> int"

definition asc :: "string \<Rightarrow> unicode" where
  "asc s = map of_char s"

datatype error =
    AssertionError string
  | IndexError
  | AttributeError
  | TypeError
  | UnicodeDecodeError

text \<open>\<^verbatim>\<open>s in t\<close> on strings is the substring test.\<close>

fun startswith :: "'a list \<Rightarrow> 'a list \<Rightarrow> bool" where
  "startswith t [] = True"
| "startswith [] (x # s) = False"
| "startswith (y # t) (x # s) = (x = y \<and> startswith t s)"

fun py_in :: "'a list \<Rightarrow> 'a list \<Rightarrow> bool" where
  "py_in s [] = (s = [])"
| "py_in s (y # t) = (startswith (y # t) s \<or> py_in s t)"

text \<open>
  Slices never raise: a negative bound counts from the end and every bound is clamped to
  the list. Indexing raises IndexError out of range, and a negative index counts from the
  end as well.
\<close>

definition clamp_index :: "nat \<Rightarrow> int \<Rightarrow> nat" where
  "clamp_index n i = (if i < 0 then nat (max 0 (int n + i)) else min n (nat i))"

definition slice_to :: "'a list \<Rightarrow> int \<Rightarrow> 'a list" where
  "slice_to xs j = take (clamp_index (length xs) j) xs"

definition slice_from :: "'a list \<Rightarrow> int \<Rightarrow> 'a list" where
  "slice_from xs i = drop (clamp_index (length xs) i) xs"

definition slice :: "'a list \<Rightarrow> int \<Rightarrow> int \<Rightarrow> 'a list" where
  "slice xs i j =
     (let lo = clamp_index (length xs) i; hi = clamp_index (length xs) j
      in take (hi - lo) (drop lo xs))"

definition py_index :: "'a list \<Rightarrow> int \<Rightarrow> error + 'a" where
  "py_index xs i =
     (if 0 \<le> i \<and> i < int (length xs) then Inr (xs ! nat i)
      else if i < 0 \<and> - int (length xs) \<le> i then Inr (xs ! nat (int (length xs) + i))
      else Inl IndexError)"

text \<open>
  \<^verbatim>\<open>unicode.strip()\<close> removes the white space of CPython 2.7's
  \<^verbatim>\<open>Py_UNICODE_ISSPACE\<close> from both ends.
\<close>

definition is_space :: "nat \<Rightarrow> bool" where
  "is_space c =
     ((9 \<le> c \<and> c \<le> 13) \<or> (28 \<le> c \<and> c \<le> 32) \<or> c = 133 \<or> c = 160 \<or> c = 5760 \<or> c = 6158
      \<or> (8192 \<le> c \<and> c \<le> 8202) \<or> c = 8232 \<or> c = 8233 \<or> c = 8239 \<or> c = 8287 \<or> c = 12288)"

definition strip :: "unicode \<Rightarrow> unicode" where
  "strip source = rev (dropWhile is_space (rev (dropWhile is_space source)))"

text \<open>
  \<^verbatim>\<open>unicode.splitlines(True)\<close> cuts after every line boundary and keeps it;
  \<^verbatim>\<open>\r\n\<close> is one boundary. \<^verbatim>\<open>split("\n")\<close> cuts at every line feed, drops it,
  and always returns at least one piece.
\<close>

definition is_linebreak :: "nat \<Rightarrow> bool" where
  "is_linebreak c = (c \<in> {10, 11, 12, 13, 28, 29, 30, 133, 8232, 8233})"

fun splitlines_from :: "unicode \<Rightarrow> unicode \<Rightarrow> unicode list" where
  "splitlines_from line [] = (if line = [] then [] else [line])"
| "splitlines_from line [c] = [line @ [c]]"
| "splitlines_from line (c # d # source) =
     (if c = 13 \<and> d = 10 then (line @ [c, d]) # splitlines_from [] source
      else if is_linebreak c then (line @ [c]) # splitlines_from [] (d # source)
      else splitlines_from (line @ [c]) (d # source))"

definition splitlines :: "unicode \<Rightarrow> unicode list" where
  "splitlines source = splitlines_from [] source"

fun split_from :: "unicode \<Rightarrow> unicode \<Rightarrow> unicode list" where
  "split_from piece [] = [piece]"
| "split_from piece (c # source) =
     (if c = 10 then piece # split_from [] source else split_from (piece @ [c]) source)"

definition split_newline :: "unicode \<Rightarrow> unicode list" where
  "split_newline source = split_from [] source"

text \<open>
  The UTF-8 codec on code points below \<open>0x110000\<close>. Decoding is strict: a sequence cut
  in the middle of a character, a stray continuation byte or an overlong form raises
  UnicodeDecodeError.
\<close>

definition utf8_char :: "nat \<Rightarrow> nat list" where
  "utf8_char c =
     (if c < 128 then [c]
      else if c < 2048 then [192 + c div 64, 128 + c mod 64]
      else if c < 65536 then [224 + c div 4096, 128 + c div 64 mod 64, 128 + c mod 64]
      else [240 + c div 262144, 128 + c div 4096 mod 64, 128 + c div 64 mod 64, 128 + c mod 64])"

definition encode :: "unicode \<Rightarrow> nat list" where
  "encode line = concat (map utf8_char line)"

definition is_continuation :: "nat \<Rightarrow> bool" where
  "is_continuation b = (128 \<le> b \<and> b < 192)"

fun decode :: "nat list \<Rightarrow> error + unicode" where
  "decode [] = Inr []"
| "decode (b # bs) =
     (if b < 128 then
        (case decode bs of Inl e \<Rightarrow> Inl e | Inr cs \<Rightarrow> Inr (b # cs))
      else if 194 \<le> b \<and> b < 224 then
        (case bs of
           b1 # rest \<Rightarrow>
             if is_continuation b1 then
               (case decode rest of Inl e \<Rightarrow> Inl e
                | Inr cs \<Rightarrow> Inr (((b - 192) * 64 + (b1 - 128)) # cs))
             else Inl UnicodeDecodeError
         | _ \<Rightarrow> Inl UnicodeDecodeError)
      else if 224 \<le> b \<and> b < 240 then
        (case bs of
           b1 # b2 # rest \<Rightarrow>
             if is_continuation b1 \<and> is_continuation b2
                \<and> 2048 \<le> (b - 224) * 4096 + (b1 - 128) * 64 + (b2 - 128) then
               (case decode rest of Inl e \<Rightarrow> Inl e
                | Inr cs \<Rightarrow> Inr (((b - 224) * 4096 + (b1 - 128) * 64 + (b2 - 128)) # cs))
             else Inl UnicodeDecodeError
         | _ \<Rightarrow> Inl UnicodeDecodeError)
      else if 240 \<le> b \<and> b < 245 then
        (case bs of
           b1 # b2 # b3 # rest \<Rightarrow>
             if is_continuation b1 \<and> is_continuation b2 \<and> is_continuation b3
                \<and> 65536 \<le> (b - 240) * 262144 + (b1 - 128) * 4096 + (b2 - 128) * 64 + (b3 - 128)
                \<and> (b - 240) * 262144 + (b1 - 128) * 4096 + (b2 - 128) * 64 + (b3 - 128) < 1114112 then
               (case decode rest of Inl e \<Rightarrow> Inl e
                | Inr cs \<Rightarrow>
                    Inr (((b - 240) * 262144 + (b1 - 128) * 4096 + (b2 - 128) * 64 + (b3 - 128)) # cs))
             else Inl UnicodeDecodeError
         | _ \<Rightarrow> Inl UnicodeDecodeError)
      else Inl UnicodeDecodeError)"

section \<open>Tokens\<close>

text \<open>
  A token of the standard tokenizer is the tuple \<^verbatim>\<open>(type, string, start, end, line)\<close>;
  the module reads the first four components (\<^verbatim>\<open>TYPE, STRING, START, END\<close>). The
  tokenizer reports every operator and bracket with type \<^verbatim>\<open>OP\<close>; the constants
  \<^verbatim>\<open>RPAR, RSQB, RBRACE\<close> of module \<^verbatim>\<open>token\<close> are distinct from it.
  \<^verbatim>\<open>ENCODING\<close> exists in Python 3 only.
\<close>

datatype toktype =
    ENDMARKER | NAME | NUMBER | STRING | NEWLINE | INDENT | DEDENT
  | RPAR | RSQB | RBRACE | OP | ERRORTOKEN | COMMENT | NL | ENCODING

datatype token = Token (ttype: toktype) (tstring: unicode) (tstart: pos) (tend: pos)

section \<open>Syntax trees\<close>

text \<open>
  A node is an object: it has an identity (\<open>nid\<close>), a class (\<open>kind\<close>), and its child
  slots in the order of \<^verbatim>\<open>_fields\<close>, each entry naming the field it belongs to
  (\<open>F_func\<close> for \<^verbatim>\<open>func\<close>, and \<open>F_other\<close> for a field the module never names; a
  list-valued field contributes one entry per element, a field that is \<^verbatim>\<open>None\<close>
  contributes none). \<open>arg\<close> is the name of a keyword argument. The classes the module
  tells apart are kept; every other statement class is \<open>OtherStmt\<close>, every other
  expression class \<open>OtherExpr\<close>, and the classes without position attributes (contexts,
  operators, \<^verbatim>\<open>arguments\<close>, slices, ...) are \<open>Plain\<close>.

  The position attributes are mutated in place by the module, so they live in a store
  indexed by node identity: \<open>start_of\<close> holds \<^verbatim>\<open>(lineno, col_offset)\<close> and
  \<open>end_of\<close> holds \<^verbatim>\<open>(end_lineno, end_col_offset)\<close>; \<open>None\<close> means that the object
  does not have the attributes.
\<close>

datatype kind =
    Module | Expr | OtherStmt
  | Str | BinOp | Call | Attribute | Subscript | Tuple | Dict | OtherExpr
  | ExceptHandler | Keyword | Plain

datatype field =
    F_body | F_value | F_func | F_args | F_keywords | F_starargs | F_kwargs
  | F_keys | F_values | F_left | F_right | F_op | F_ctx | F_elts | F_slice | F_other

datatype node = Node (nid: nat) (kind: kind) (arg: unicode) (fields: "(field \<times> node) list")

datatype store = Store (start_of: "nat \<rightharpoonup> pos") (end_of: "nat \<rightharpoonup> pos")

definition set_start :: "store \<Rightarrow> node \<Rightarrow> pos \<Rightarrow> store" where
  "set_start s n p = Store ((start_of s)(nid n \<mapsto> p)) (end_of s)"

definition set_end :: "store \<Rightarrow> node \<Rightarrow> pos \<Rightarrow> store" where
  "set_end s n p = Store (start_of s) ((end_of s)(nid n \<mapsto> p))"

definition start_pos :: "store \<Rightarrow> node \<Rightarrow> pos option" where
  "start_pos s n = start_of s (nid n)"

definition end_pos :: "store \<Rightarrow> node \<Rightarrow> pos option" where
  "end_pos s n = end_of s (nid n)"

definition is_stmt :: "kind \<Rightarrow> bool" where
  "is_stmt k = (k = Expr \<or> k = OtherStmt)"

definition is_expr :: "kind \<Rightarrow> bool" where
  "is_expr k = (k \<in> {Str, BinOp, Call, Attribute, Subscript, Tuple, Dict, OtherExpr})"

text \<open>\<^verbatim>\<open>"lineno" in node._attributes and "col_offset" in node._attributes\<close>\<close>

definition has_position_attributes :: "kind \<Rightarrow> bool" where
  "has_position_attributes k = (is_stmt k \<or> is_expr k \<or> k = ExceptHandler)"

definition iter_child_nodes :: "node \<Rightarrow> node list" where
  "iter_child_nodes n = map snd (fields n)"

text \<open>A list-valued attribute such as \<^verbatim>\<open>node.args\<close>, and a single-valued one such as
  \<^verbatim>\<open>node.func\<close> (\<open>None\<close> when the attribute is \<^verbatim>\<open>None\<close>).\<close>

definition field_list :: "node \<Rightarrow> field \<Rightarrow> node list" where
  "field_list n f = map snd (filter (\<lambda>e. fst e = f) (fields n))"

definition field_opt :: "node \<Rightarrow> field \<Rightarrow> node option" where
  "field_opt n f = (case field_list n f of [] \<Rightarrow> None | c # _ \<Rightarrow> Some c)"

lemma size_child:
  "c \<in> set (iter_child_nodes n) \<Longrightarrow> size c < size n"
proof (cases n)
  case (Node i k a fs)
  assume "c \<in> set (iter_child_nodes n)"
  then obtain f where "(f, c) \<in> set fs"
    using Node by (auto simp: iter_child_nodes_def)
  then have "size c < Suc (size_list (size_prod (\<lambda>_. 0) size) fs)"
    by (induction fs) auto
  then show ?thesis using Node by simp
qed

lemma size_children:
  "sum_list (map size (iter_child_nodes n)) < size n"
proof (cases n)
  case (Node i k a fs)
  have "sum_list (map size (map snd fs)) \<le> size_list (size_prod (\<lambda>_. 0) size) fs"
    by (induction fs) auto
  then show ?thesis using Node by (simp add: iter_child_nodes_def)
qed

lemma field_list_subset:
  "set (field_list n f) \<subseteq> set (iter_child_nodes n)"
  by (auto simp: field_list_def iter_child_nodes_def)

lemma field_opt_child:
  "field_opt n f = Some c \<Longrightarrow> c \<in> set (iter_child_nodes n)"
  using field_list_subset [of n f]
  by (auto simp: field_opt_def split: list.splits)

section \<open>Structural queries\<close>

function contains_node :: "node \<Rightarrow> node \<Rightarrow> bool" where
  "contains_node parent_node child_node =
     list_ex (\<lambda>child. nid child = nid child_node \<or> contains_node child child_node)
       (iter_child_nodes parent_node)"
  by pat_completeness auto
termination
  by (relation "measure (\<lambda>(p, c). size p)") (auto simp: size_child)

text \<open>\<^verbatim>\<open>ast.walk\<close> yields the nodes breadth first from a queue.\<close>

function walk_queue :: "node list \<Rightarrow> node list" where
  "walk_queue [] = []"
| "walk_queue (n # todo) = n # walk_queue (todo @ iter_child_nodes n)"
  by pat_completeness auto
termination
  by (relation "measure (\<lambda>todo. sum_list (map size todo))") (auto simp: size_children)

definition walk :: "node \<Rightarrow> node list" where
  "walk tree = walk_queue [tree]"


definition has_parent_with_class :: "node \<Rightarrow> (kind \<Rightarrow> bool) \<Rightarrow> node \<Rightarrow> bool" where
  \<comment> \<open>A class is given by the node kinds that are its instances.\<close>
  "has_parent_with_class target_node parent_class tree =
     list_ex (\<lambda>node. parent_class (kind node) \<and> contains_node node target_node) (walk tree)"

section \<open>Position comparison and child order\<close>

definition compare_node_positions :: "store \<Rightarrow> node \<Rightarrow> node \<Rightarrow> error + int" where
  "compare_node_positions s n1 n2 =
     (case (start_pos s n1, start_pos s n2) of
        (Some (lineno1, col_offset1), Some (lineno2, col_offset2)) \<Rightarrow>
          Inr (if lineno1 > lineno2 then 1
               else if lineno1 < lineno2 then - 1
               else if col_offset1 > col_offset2 then 1
               else if col_offset2 < col_offset2 then - 1
               else 0)
      | _ \<Rightarrow> Inl AttributeError)"

text \<open>The loop over \<^verbatim>\<open>range(len(node.keys))\<close> reads \<^verbatim>\<open>node.values[i]\<close> and raises
  IndexError when the values run out.\<close>

fun dict_children :: "node list \<Rightarrow> node list \<Rightarrow> error + node list" where
  "dict_children [] vs = Inr []"
| "dict_children (k # ks) [] = Inl IndexError"
| "dict_children (k # ks) (v # vs) =
     (case dict_children ks vs of Inl e \<Rightarrow> Inl e | Inr children \<Rightarrow> Inr (k # v # children))"

text \<open>The list a call node collects before sorting; an entry is \<open>None\<close> where the
  attribute read gives \<^verbatim>\<open>None\<close>.\<close>

definition call_children :: "node \<Rightarrow> node option list" where
  "call_children node =
     [field_opt node F_func] @ map Some (field_list node F_args)
     @ map (\<lambda>kw. field_opt kw F_value) (field_list node F_keywords)
     @ (case field_opt node F_starargs of None \<Rightarrow> [] | Some c \<Rightarrow> [Some c])
     @ (case field_opt node F_kwargs of None \<Rightarrow> [] | Some c \<Rightarrow> [Some c])"

text \<open>\<^verbatim>\<open>list.sort(key=...)\<close> computes the key \<^verbatim>\<open>(x.lineno, x.col_offset)\<close> of every
  element, which raises AttributeError where the attributes are missing, and then sorts
  stably by the keys.\<close>

fun sort_keys :: "store \<Rightarrow> node option list \<Rightarrow> error + (pos \<times> node) list" where
  "sort_keys s [] = Inr []"
| "sort_keys s (None # xs) = Inl AttributeError"
| "sort_keys s (Some x # xs) =
     (case start_pos s x of
        None \<Rightarrow> Inl AttributeError
      | Some p \<Rightarrow> (case sort_keys s xs of Inl e \<Rightarrow> Inl e | Inr ks \<Rightarrow> Inr ((p, x) # ks)))"

definition get_ordered_child_nodes :: "store \<Rightarrow> node \<Rightarrow> error + node list" where
  "get_ordered_child_nodes s node =
     (if kind node = Dict then
        dict_children (field_list node F_keys) (field_list node F_values)
      else if kind node = Call then
        (case sort_keys s (call_children node) of
           Inl e \<Rightarrow> Inl e
         | Inr keyed \<Rightarrow> Inr (map snd (sort_key fst keyed)))
      else Inr (iter_child_nodes node))"

section \<open>The token window of a node\<close>

definition extract_tokens :: "token list \<Rightarrow> int \<Rightarrow> int \<Rightarrow> int \<Rightarrow> int \<Rightarrow> token list" where
  "extract_tokens tokens lineno col_offset end_lineno end_col_offset =
     filter (\<lambda>tok. fst (tstart tok) \<ge> lineno
                 \<and> (snd (tstart tok) \<ge> col_offset \<or> fst (tstart tok) > lineno)
                 \<and> fst (tend tok) \<le> end_lineno
                 \<and> (snd (tend tok) \<le> end_col_offset \<or> fst (tend tok) < end_lineno)
                 \<and> tstring tok \<noteq> [])
       tokens"

text \<open>
  The test of the \<^verbatim>\<open>while\<close> loop of \<^verbatim>\<open>_strip_trailing_junk_from_expressions\<close>.
  Module \<^verbatim>\<open>token\<close> of Python 2 has no \<^verbatim>\<open>ELLIPSIS\<close>, so the \<^verbatim>\<open>hasattr\<close> conjunct
  is true. Reading \<^verbatim>\<open>tokens[-1]\<close> of an empty list raises IndexError.
\<close>

definition is_trailing_junk :: "token \<Rightarrow> bool" where
  "is_trailing_junk t =
     (ttype t \<notin> {RBRACE, RPAR, RSQB, NAME, NUMBER, STRING}
        \<and> \<not> py_in (tstring t) (asc '')}]'')
      \<or> tstring t \<in> set (map asc
           [''and'', ''as'', ''assert'', ''class'', ''def'', ''del'',
            ''elif'', ''else'', ''except'', ''exec'', ''finally'',
            ''for'', ''from'', ''global'', ''if'', ''import'', ''in'',
            ''is'', ''lambda'', ''not'', ''or'', ''try'',
            ''while'', ''with'', ''yield'']))"

function strip_trailing_junk_from_expressions :: "token list \<Rightarrow> error + token list" where
  "strip_trailing_junk_from_expressions tokens =
     (if tokens = [] then Inl IndexError
      else if is_trailing_junk (last tokens)
      then strip_trailing_junk_from_expressions (butlast tokens)
      else Inr tokens)"
  by pat_completeness auto
termination
  by (relation "measure length") auto

fun closers_loop :: "int \<Rightarrow> bool \<Rightarrow> token list \<Rightarrow> token list" where
  "closers_loop level remove_naked_comma [] = []"
| "closers_loop level remove_naked_comma (t # tokens) =
     (let level1 = (if py_in (tstring t) (asc ''({['') then level + 1
                    else if py_in (tstring t) (asc '')}]'') then level - 1
                    else level)
      in if level1 = 0 \<and> tstring t = asc '','' \<and> remove_naked_comma then []
         else if level1 < 0 then []
         else t # closers_loop level1 remove_naked_comma tokens)"

definition strip_trailing_extra_closers :: "token list \<Rightarrow> bool \<Rightarrow> token list" where
  "strip_trailing_extra_closers tokens remove_naked_comma =
     closers_loop 0 remove_naked_comma tokens"

text \<open>The loop runs \<open>i\<close> from \<open>len(tokens) - 1\<close> down to \<open>0\<close>; the first argument is
  \<open>i + 1\<close>.\<close>

fun unclosed_loop :: "nat \<Rightarrow> int \<Rightarrow> token list \<Rightarrow> token list" where
  "unclosed_loop 0 level tokens = tokens"
| "unclosed_loop (Suc i) level tokens =
     (let level1 = (if py_in (tstring (tokens ! i)) (asc ''({['') then level - 1
                    else if py_in (tstring (tokens ! i)) (asc '')}]'') then level + 1
                    else level)
      in if level1 < 0 then unclosed_loop i 0 (take i tokens)
         else unclosed_loop i level1 tokens)"

definition strip_unclosed_brackets :: "token list \<Rightarrow> token list" where
  "strip_unclosed_brackets tokens = unclosed_loop (length tokens) 0 tokens"

text \<open>The \<^verbatim>\<open>while\<close> loop of the statement branch of \<^verbatim>\<open>_set_real_end\<close>.\<close>

definition is_statement_tail :: "token \<Rightarrow> bool" where
  "is_statement_tail t =
     (ttype t \<in> {NL, COMMENT, NEWLINE, INDENT}
      \<or> tstring t \<in> set (map asc ['':'', ''else'', ''elif'', ''finally'', ''except'']))"

function strip_statement_tail :: "token list \<Rightarrow> error + token list" where
  "strip_statement_tail tokens =
     (if tokens = [] then Inl IndexError
      else if is_statement_tail (last tokens) then strip_statement_tail (butlast tokens)
      else Inr tokens)"
  by pat_completeness auto
termination
  by (relation "measure length") auto

text \<open>
  A stateful function returns the new store, or the exception together with the store at
  the moment it is raised.
\<close>

definition has_no_arguments :: "node \<Rightarrow> bool" where
  "has_no_arguments node =
     (field_list node F_args = [] \<and> field_list node F_keywords = []
      \<and> field_opt node F_starargs = None \<and> field_opt node F_kwargs = None)"

definition set_real_end ::
  "store \<Rightarrow> node \<Rightarrow> token list \<Rightarrow> (error \<times> store) + (store \<times> token list)" where
  "set_real_end s node tokens =
     (case (if is_stmt (kind node) then strip_statement_tail tokens
            else strip_trailing_junk_from_expressions
                   (strip_unclosed_brackets
                      (strip_trailing_extra_closers tokens (kind node \<noteq> Tuple)))) of
        Inl e \<Rightarrow> Inl (e, s)
      | Inr tokens1 \<Rightarrow>
          if tokens1 = [] then Inl (IndexError, s)
          else
            let s1 = set_end s node (tend (last tokens1)) in
            if kind node = Call \<and> has_no_arguments node then
              if tstring (last tokens1) \<noteq> asc '')'' then Inl (AssertionError [], s1)
              else (case strip_trailing_junk_from_expressions (butlast tokens1) of
                      Inl e \<Rightarrow> Inl (e, s1)
                    | Inr tokens2 \<Rightarrow> Inr (s1, tokens2))
            else if kind node = Attribute then
              if ttype (last tokens1) \<noteq> NAME then Inl (AssertionError [], s1)
              else (case strip_trailing_junk_from_expressions (butlast tokens1) of
                      Inl e \<Rightarrow> Inl (e, s1)
                    | Inr tokens2 \<Rightarrow> Inr (s1, tokens2))
            else Inr (s1, tokens1))"

section \<open>Keyword arguments\<close>

text \<open>The parameter \<^verbatim>\<open>type_\<close> is \<open>wanted\<close> here. \<^verbatim>\<open>not type_\<close> holds for
  \<^verbatim>\<open>None\<close> and for the token type \<open>0\<close>, which is
  \<^verbatim>\<open>ENDMARKER\<close>.\<close>

definition find_token_prior_to_position ::
  "token list \<Rightarrow> int \<Rightarrow> int \<Rightarrow> toktype option \<Rightarrow> token option" where
  "find_token_prior_to_position tokens lineno col_offset wanted =
     find (\<lambda>t. fst (tstart t) \<le> lineno
               \<and> (snd (tstart t) < col_offset \<or> fst (tstart t) < lineno)
               \<and> (case wanted of None \<Rightarrow> True | Some ty \<Rightarrow> ty = ENDMARKER \<or> ttype t = ty))
       (rev tokens)"

fun mark_keywords :: "store \<Rightarrow> token list \<Rightarrow> node list \<Rightarrow> (error \<times> store) + store" where
  "mark_keywords s tokens [] = Inr s"
| "mark_keywords s tokens (keyword # keywords) =
     (case field_opt keyword F_value of
        None \<Rightarrow> Inl (AssertionError [], s)
      | Some v \<Rightarrow>
          (case start_pos s v of
             None \<Rightarrow> Inl (AssertionError [], s)
           | Some (lineno, col_offset) \<Rightarrow>
               (case find_token_prior_to_position tokens lineno col_offset (Some NAME) of
                  None \<Rightarrow> Inl (AssertionError [], s)
                | Some kw_token \<Rightarrow>
                    if tstring kw_token \<noteq> arg keyword then Inl (AssertionError [], s)
                    else mark_keywords
                           (set_end (set_start s keyword (tstart kw_token)) keyword (tend kw_token))
                           tokens keywords)))"

definition mark_parameters :: "store \<Rightarrow> node \<Rightarrow> token list \<Rightarrow> (error \<times> store) + store" where
  "mark_parameters s node tokens =
     (if kind node \<noteq> Call then Inl (AssertionError [], s)
      else mark_keywords s tokens (field_list node F_keywords))"

section \<open>The range-marking walk\<close>

text \<open>A \<^verbatim>\<open>for\<close> loop whose body may raise: the first exception ends it.\<close>

fun fold_result :: "('a \<Rightarrow> 'b \<Rightarrow> 'e + 'b) \<Rightarrow> 'a list \<Rightarrow> 'b \<Rightarrow> 'e + 'b" where
  "fold_result f [] b = Inr b"
| "fold_result f (x # xs) b =
     (case f x b of Inl e \<Rightarrow> Inl e | Inr b1 \<Rightarrow> fold_result f xs b1)"

lemma fold_result_cong [fundef_cong]:
  "xs = ys \<Longrightarrow> b = c \<Longrightarrow> (\<And>x a. x \<in> set ys \<Longrightarrow> f x a = g x a) \<Longrightarrow>
   fold_result f xs b = fold_result g ys c"
proof (induction ys arbitrary: xs b c)
  case Nil
  then show ?case by simp
next
  case (Cons y ys)
  then show ?case by (auto split: sum.splits)
qed

lemma sort_keys_Inr:
  "sort_keys s xs = Inr keyed \<Longrightarrow>
   map (Some \<circ> snd) keyed = xs \<and> (\<forall>(p, x) \<in> set keyed. start_pos s x = Some p)"
proof (induction xs arbitrary: keyed)
  case Nil
  then show ?case by simp
next
  case (Cons c xs)
  then show ?case
    by (cases c) (auto split: option.splits sum.splits)
qed

lemma dict_children_subset:
  "dict_children ks vs = Inr cs \<Longrightarrow> set cs \<subseteq> set ks \<union> set vs"
  by (induction ks vs arbitrary: cs rule: dict_children.induct)
     (auto split: sum.splits)

lemma call_children_size:
  "Some c \<in> set (call_children n) \<Longrightarrow> size c < size n"
proof -
  assume "Some c \<in> set (call_children n)"
  then consider "c \<in> set (iter_child_nodes n)"
    | kw where "kw \<in> set (iter_child_nodes n)" "c \<in> set (iter_child_nodes kw)"
    using field_list_subset [of n] field_opt_child [of n]
    by (auto simp: call_children_def split: option.splits dest!: field_opt_child sym [of "Some c"])
  then show ?thesis
  proof cases
    case 1
    then show ?thesis by (rule size_child)
  next
    case 2
    then show ?thesis using size_child [of c kw] size_child [of kw n] by simp
  qed
qed

lemma ordered_child_size:
  assumes "get_ordered_child_nodes s n = Inr cs" and "c \<in> set cs"
  shows "size c < size n"
proof (cases "kind n = Dict")
  case True
  with assms have "c \<in> set (field_list n F_keys) \<union> set (field_list n F_values)"
    using dict_children_subset by (auto simp: get_ordered_child_nodes_def)
  then show ?thesis
    using field_list_subset [of n] size_child [of c n] by blast
next
  case False
  show ?thesis
  proof (cases "kind n = Call")
    case True
    with False assms obtain keyed where keyed: "sort_keys s (call_children n) = Inr keyed"
      and cs: "cs = map snd (sort_key fst keyed)"
      by (auto simp: get_ordered_child_nodes_def split: sum.splits)
    from assms(2) cs have "Some c \<in> set (map (Some \<circ> snd) keyed)" by force
    with sort_keys_Inr [OF keyed] have "Some c \<in> set (call_children n)" by simp
    then show ?thesis by (rule call_children_size)
  next
    case notcall: False
    with False assms show ?thesis
      by (auto simp: get_ordered_child_nodes_def size_child)
  qed
qed

function mark_text_ranges_rec ::
  "node \<Rightarrow> token list \<Rightarrow> pos \<Rightarrow> store \<Rightarrow> (error \<times> store) + (pos \<times> store)" where
  "mark_text_ranges_rec node tokens prelim_end s =
     (case (if has_position_attributes (kind node) then
              (case start_pos s node of
                 None \<Rightarrow> Inl (AttributeError, s)
               | Some (lineno, col_offset) \<Rightarrow>
                   set_real_end s node
                     (extract_tokens tokens lineno col_offset (fst prelim_end) (snd prelim_end)))
            else Inr (s, tokens)) of
        Inl e \<Rightarrow> Inl e
      | Inr (s1, tokens1) \<Rightarrow>
          (case get_ordered_child_nodes s1 node of
             Inl e \<Rightarrow> Inl (e, s1)
           | Inr children \<Rightarrow>
               (case fold_result
                       (\<lambda>child (prelim, st). mark_text_ranges_rec child tokens1 prelim st)
                       (rev children) (prelim_end, s1) of
                  Inl e \<Rightarrow> Inl e
                | Inr (prelim2, s2) \<Rightarrow>
                    (case (if has_position_attributes (kind node) then
                             (case start_pos s2 node of
                                None \<Rightarrow> Inl (AttributeError, s2)
                              | Some p \<Rightarrow> Inr p)
                           else Inr prelim2) of
                       Inl e \<Rightarrow> Inl e
                     | Inr prelim3 \<Rightarrow>
                         if kind node = Call then
                           (case mark_parameters s2 node tokens1 of
                              Inl e \<Rightarrow> Inl e
                            | Inr s3 \<Rightarrow> Inr (prelim3, s3))
                         else Inr (prelim3, s2)))))"
  by pat_completeness auto
termination
  by (relation "measure (\<lambda>(node, tokens, prelim_end, s). size node)")
     (auto simp: ordered_child_size)

section \<open>The position-bug corrector\<close>

text \<open>
  The \<^verbatim>\<open>else\<close> branch of \<^verbatim>\<open>fix_node\<close>: the column is taken to count bytes of the
  UTF-8 form of the line and is replaced by the number of characters of that prefix.
\<close>

definition char_col_offset :: "nat list list \<Rightarrow> pos \<Rightarrow> error + int" where
  "char_col_offset utf8_byte_lines p =
     (case py_index utf8_byte_lines (fst p - 1) of
        Inl e \<Rightarrow> Inl e
      | Inr byte_line \<Rightarrow>
          (case decode (slice_to byte_line (snd p)) of
             Inl e \<Rightarrow> Inl e
           | Inr chars \<Rightarrow> Inr (int (length chars))))"

text \<open>\<open>starts_after s node f\<close> evaluates \<^verbatim>\<open>compare_node_positions(node, node.f) > 0\<close>
  and gives the child when the test holds.\<close>

definition starts_after :: "store \<Rightarrow> node \<Rightarrow> field \<Rightarrow> error + node option" where
  "starts_after s node f =
     (case field_opt node f of
        None \<Rightarrow> Inl AttributeError
      | Some c \<Rightarrow>
          (case compare_node_positions s node c of
             Inl e \<Rightarrow> Inl e
           | Inr r \<Rightarrow> Inr (if r > 0 then Some c else None)))"

definition copy_start :: "store \<Rightarrow> node \<Rightarrow> node \<Rightarrow> (error \<times> store) + store" where
  "copy_start s node c =
     (case start_pos s c of
        None \<Rightarrow> Inl (AttributeError, s)
      | Some p \<Rightarrow> Inr (set_start s node p))"

definition value_is_Str :: "node \<Rightarrow> bool" where
  "value_is_Str node = (case field_opt node F_value of None \<Rightarrow> False | Some v \<Rightarrow> kind v = Str)"

text \<open>
  The chain of \<^verbatim>\<open>if\<close>/\<^verbatim>\<open>elif\<close> of \<^verbatim>\<open>fix_node\<close> after the children are fixed. The
  classes are disjoint, so once the class test of one of the four comparison branches
  holds and its comparison fails, only the \<^verbatim>\<open>else\<close> branch remains.
\<close>

definition fix_position ::
  "nat list list \<Rightarrow> node \<Rightarrow> store \<times> token list \<Rightarrow> (error \<times> store) + (store \<times> token list)" where
  "fix_position utf8_byte_lines node st =
     (let s = fst st; string_tokens = snd st in
      if kind node = Str then
        (case string_tokens of
           [] \<Rightarrow> Inl (IndexError, s)
         | tok # rest \<Rightarrow> Inr (set_start s node (tstart tok), rest))
      else if (kind node = Expr \<or> kind node = Attribute) \<and> value_is_Str node then
        (case field_opt node F_value of
           None \<Rightarrow> Inl (AttributeError, s)
         | Some v \<Rightarrow>
             (case copy_start s node v of Inl e \<Rightarrow> Inl e | Inr s1 \<Rightarrow> Inr (s1, string_tokens)))
      else
        (case (if kind node = BinOp then starts_after s node F_left
               else if kind node = Call then starts_after s node F_func
               else if kind node = Attribute then starts_after s node F_value
               else if kind node = Subscript then starts_after s node F_value
               else Inr None) of
           Inl e \<Rightarrow> Inl (e, s)
         | Inr (Some c) \<Rightarrow>
             (case copy_start s node c of Inl e \<Rightarrow> Inl e | Inr s1 \<Rightarrow> Inr (s1, string_tokens))
         | Inr None \<Rightarrow>
             (case start_pos s node of
                None \<Rightarrow> Inr (s, string_tokens)
              | Some p \<Rightarrow>
                  (case char_col_offset utf8_byte_lines p of
                     Inl e \<Rightarrow> Inl (e, s)
                   | Inr char_col \<Rightarrow> Inr (set_start s node (fst p, char_col), string_tokens)))))"

function fix_node ::
  "nat list list \<Rightarrow> node \<Rightarrow> store \<times> token list \<Rightarrow> (error \<times> store) + (store \<times> token list)" where
  "fix_node utf8_byte_lines node st =
     (case get_ordered_child_nodes (fst st) node of
        Inl e \<Rightarrow> Inl (e, fst st)
      | Inr children \<Rightarrow>
          (case fold_result (fix_node utf8_byte_lines) children st of
             Inl e \<Rightarrow> Inl e
           | Inr st1 \<Rightarrow> fix_position utf8_byte_lines node st1))"
  by pat_completeness auto
termination
  by (relation "measure (\<lambda>(utf8_byte_lines, node, st). size node)")
     (auto simp: ordered_child_size)

definition fix_ast_problems ::
  "store \<Rightarrow> node \<Rightarrow> unicode list \<Rightarrow> token list \<Rightarrow> (error \<times> store) + store" where
  "fix_ast_problems s tree source_lines tokens =
     (let utf8_byte_lines = map encode source_lines;
          string_tokens = filter (\<lambda>tok. ttype tok = STRING) tokens
      in case fix_node utf8_byte_lines tree (s, string_tokens) of
           Inl e \<Rightarrow> Inl e
         | Inr st \<Rightarrow> Inr (fst st))"

section \<open>The entry point\<close>

text \<open>
  The standard tokenizer is outside the module: it is the parameter \<open>tokenize\<close>, and it
  may raise.
\<close>

definition mark_text_ranges ::
  "(unicode \<Rightarrow> error + token list) \<Rightarrow> store \<Rightarrow> node \<Rightarrow> unicode \<Rightarrow> (error \<times> store) + store" where
  "mark_text_ranges tokenize s node source =
     (if \<not> length (strip source) > 0 then Inl (AssertionError ''source must be non-empty'', s)
      else
        (case tokenize source of
           Inl e \<Rightarrow> Inl (e, s)
         | Inr all_tokens \<Rightarrow>
             let source_lines = splitlines source in
             (case fix_ast_problems s node source_lines all_tokens of
                Inl e \<Rightarrow> Inl e
              | Inr s1 \<Rightarrow>
                  (case py_index source_lines (int (length source_lines) - 1) of
                     Inl e \<Rightarrow> Inl (e, s1)
                   | Inr last_line \<Rightarrow>
                       (case mark_text_ranges_rec node all_tokens
                               (int (length source_lines), int (length last_line)) s1 of
                          Inl e \<Rightarrow> Inl e
                        | Inr r \<Rightarrow> Inr (snd r))))))"

section \<open>Text of a range\<close>

text \<open>A \<^verbatim>\<open>TextRange\<close> is the pair of the start and the end position.\<close>

definition extract_text_range :: "unicode \<Rightarrow> pos \<times> pos \<Rightarrow> error + unicode" where
  "extract_text_range source text_range =
     (let lines = slice (splitlines source) (fst (fst text_range) - 1) (fst (snd text_range)) in
      if lines = [] then Inl IndexError
      else
        let lines1 = lines [length lines - 1 := slice_to (last lines) (snd (snd text_range))];
            lines2 = lines1 [0 := slice_from (hd lines1) (snd (fst text_range))]
        in Inr (concat lines2))"

section \<open>The tokenizer adapter\<close>

text \<open>
  \<open>encoding_type\<close> is the value of \<^verbatim>\<open>tokenize.ENCODING\<close>, \<open>None\<close> where module
  \<^verbatim>\<open>tokenize\<close> does not define it (Python 2); \<open>raw\<close> are the tokens of the standard
  tokenizer. Only the UTF-8 codec is modelled. The function body ends after the loop:
  there is no \<^verbatim>\<open>return\<close>, so the call evaluates to \<^verbatim>\<open>None\<close>.
\<close>

datatype thoken = Thoken toktype unicode int int int int

fun thokens_loop ::
  "toktype option \<Rightarrow> unicode list \<Rightarrow> nat list list option \<Rightarrow> token list \<Rightarrow> thoken list
   \<Rightarrow> error + thoken list" where
  "thokens_loop encoding_type char_lines byte_lines [] thokens = Inr thokens"
| "thokens_loop encoding_type char_lines byte_lines (tok # raw) thokens =
     (case encoding_type of
        None \<Rightarrow> Inl AttributeError
      | Some enc \<Rightarrow>
          let byte_lines1 = (if ttype tok = enc then Some (map encode char_lines) else byte_lines) in
          if fst (tstart tok) = 0 \<or> (snd (tstart tok) = 0 \<and> snd (tend tok) = 0) then
            thokens_loop encoding_type char_lines byte_lines1 raw
              (thokens @ [Thoken (ttype tok) (tstring tok)
                            (fst (tstart tok)) (snd (tstart tok)) (fst (tend tok)) (snd (tend tok))])
          else
            (case byte_lines1 of
               None \<Rightarrow> Inl TypeError
             | Some lines \<Rightarrow>
                 (case char_col_offset lines (tstart tok) of
                    Inl e \<Rightarrow> Inl e
                  | Inr char_start_col \<Rightarrow>
                      (case char_col_offset lines (tend tok) of
                         Inl e \<Rightarrow> Inl e
                       | Inr char_end_col \<Rightarrow>
                           thokens_loop encoding_type char_lines byte_lines1 raw
                             (thokens @ [Thoken (ttype tok) (tstring tok)
                                           (fst (tstart tok)) char_start_col
                                           (fst (tend tok)) char_end_col])))))"

definition tokenize_with_char_offsets ::
  "toktype option \<Rightarrow> (unicode \<Rightarrow> error + token list) \<Rightarrow> unicode \<Rightarrow> error + thoken list option" where
  "tokenize_with_char_offsets encoding_type tokenize source =
     (case tokenize source of
        Inl e \<Rightarrow> Inl e
      | Inr raw \<Rightarrow>
          (case thokens_loop encoding_type (map (\<lambda>line. line @ [10]) (split_newline source)) None raw [] of
             Inl e \<Rightarrow> Inl e
           | Inr thokens \<Rightarrow> Inr None))"

section \<open>Inputs of the self-test and of the examples\<close>

text \<open>
  The first case of the module's self-test is the source \<^verbatim>\<open>x(y=z)\<close>. Its tree is
  \<^verbatim>\<open>Module([Expr(Call(Name x, [], [keyword(y, Name z)]))])\<close>, with the start positions
  the Python 2.7 parser reports and the tokens \<^verbatim>\<open>tokenize.generate_tokens\<close> yields.
\<close>

definition call_source :: unicode where
  "call_source = asc ''x(y=z)''"

definition value_node :: node where
  "value_node = Node 16 OtherExpr [] [(F_ctx, Node 17 Plain [] [])]"

definition keyword_node :: node where
  "keyword_node = Node 15 Keyword (asc ''y'') [(F_value, value_node)]"

definition callee_node :: node where
  "callee_node = Node 13 OtherExpr [] [(F_ctx, Node 14 Plain [] [])]"

definition call_node :: node where
  "call_node = Node 12 Call [] [(F_func, callee_node), (F_keywords, keyword_node)]"

definition call_tree :: node where
  "call_tree = Node 10 Module [] [(F_body, Node 11 Expr [] [(F_value, call_node)])]"

definition call_store :: store where
  "call_store =
     Store [11 \<mapsto> (1, 0), 12 \<mapsto> (1, 0), 13 \<mapsto> (1, 0), 16 \<mapsto> (1, 4)] Map.empty"

definition call_tokens :: "token list" where
  "call_tokens =
     [Token NAME (asc ''x'') (1, 0) (1, 1), Token OP (asc ''('') (1, 1) (1, 2),
      Token NAME (asc ''y'') (1, 2) (1, 3), Token OP (asc ''='') (1, 3) (1, 4),
      Token NAME (asc ''z'') (1, 4) (1, 5), Token OP (asc '')'') (1, 5) (1, 6),
      Token ENDMARKER [] (2, 0) (2, 0)]"








declare strip_trailing_junk_from_expressions.simps [simp del]
declare strip_statement_tail.simps [simp del]
declare mark_text_ranges_rec.simps [simp del]
declare fix_node.simps [simp del]


lemmas unfold_python =
  strip_trailing_junk_from_expressions.simps strip_statement_tail.simps
  mark_text_ranges_rec.simps fix_node.simps
  asc_def is_trailing_junk_def strip_unclosed_brackets_def strip_trailing_extra_closers_def
  extract_tokens_def set_real_end_def is_statement_tail_def has_no_arguments_def
  field_list_def field_opt_def iter_child_nodes_def get_ordered_child_nodes_def
  call_children_def start_pos_def end_pos_def set_start_def set_end_def
  is_stmt_def is_expr_def has_position_attributes_def find_token_prior_to_position_def
  mark_parameters_def fix_position_def fix_ast_problems_def char_col_offset_def
  starts_after_def copy_start_def value_is_Str_def compare_node_positions_def
  py_index_def slice_to_def slice_from_def slice_def clamp_index_def encode_def utf8_char_def
  mark_text_ranges_def strip_def is_space_def splitlines_def is_linebreak_def
  is_continuation_def extract_text_range_def

section \<open>Auxiliary notions for stating properties\<close>

function subnodes :: "node \<Rightarrow> node list" where
  "subnodes n = n # concat (map subnodes (iter_child_nodes n))"
  by pat_completeness auto
termination
  by (relation "measure size") (auto simp: size_child)

definition descendants :: "node \<Rightarrow> node list" where
  "descendants n = concat (map subnodes (iter_child_nodes n))"

definition node_ids :: "node \<Rightarrow> nat list" where
  "node_ids n = map nid (subnodes n)"









definition agree_on :: "node list \<Rightarrow> store \<Rightarrow> store \<Rightarrow> bool" where
  "agree_on ns a b = (\<forall>D \<in> set ns. start_pos a D = start_pos b D \<and> end_pos a D = end_pos b D)"

definition unchanged_outside :: "node list \<Rightarrow> store \<Rightarrow> store \<Rightarrow> bool" where
  "unchanged_outside ns a b =
     (\<forall>i. i \<notin> nid ` set ns \<longrightarrow> start_of a i = start_of b i \<and> end_of a i = end_of b i)"






declare subnodes.simps [simp del]
declare contains_node.simps [simp del]


lemma subnodes_eq: "subnodes n = n # descendants n"
  by (subst subnodes.simps) (simp add: descendants_def)

lemma contains_node_descendant:
  "contains_node p c \<Longrightarrow> nid c \<in> nid ` set (descendants p)"
proof (induction p c rule: contains_node.induct)
  case (1 p c)
  from "1.prems" obtain ch where ch: "ch \<in> set (iter_child_nodes p)"
    and hit: "nid ch = nid c \<or> contains_node ch c"
    by (subst (asm) contains_node.simps) (auto simp: list_ex_iff)
  from hit have "nid c \<in> nid ` set (subnodes ch)"
  proof
    assume "nid ch = nid c"
    then show ?thesis by (auto simp: subnodes_eq [of ch] intro: rev_image_eqI)
  next
    assume "contains_node ch c"
    from "1.IH" [OF ch this] show ?thesis by (auto simp: subnodes_eq [of ch])
  qed
  with ch show ?case by (auto simp: descendants_def)
qed

lemma subnodes_trans:
  "m \<in> set (subnodes n) \<Longrightarrow> set (subnodes m) \<subseteq> set (subnodes n)"
proof (induction n rule: subnodes.induct)
  case (1 n)
  show ?case
  proof (cases "m = n")
    case True
    then show ?thesis by simp
  next
    case False
    with "1.prems" obtain ch where ch: "ch \<in> set (iter_child_nodes n)" and m: "m \<in> set (subnodes ch)"
      by (auto simp: subnodes_eq [of n] descendants_def)
    from "1.IH" [OF ch m] have "set (subnodes m) \<subseteq> set (subnodes ch)" .
    with ch show ?thesis by (auto simp: subnodes_eq [of n] descendants_def)
  qed
qed

lemma descendants_trans:
  "m \<in> set (descendants n) \<Longrightarrow> set (descendants m) \<subseteq> set (descendants n)"
proof -
  assume "m \<in> set (descendants n)"
  then obtain ch where ch: "ch \<in> set (iter_child_nodes n)" and m: "m \<in> set (subnodes ch)"
    by (auto simp: descendants_def)
  from subnodes_trans [OF m] have "set (descendants m) \<subseteq> set (subnodes ch)"
    by (auto simp: subnodes_eq [of m])
  with ch show ?thesis by (auto simp: descendants_def)
qed

lemma distinct_subnode:
  "distinct (node_ids n) \<Longrightarrow> m \<in> set (subnodes n) \<Longrightarrow> distinct (node_ids m)"
proof (induction n rule: subnodes.induct)
  case (1 n)
  show ?case
  proof (cases "m = n")
    case True
    with "1.prems" show ?thesis by simp
  next
    case False
    with "1.prems" obtain ch where ch: "ch \<in> set (iter_child_nodes n)" and m: "m \<in> set (subnodes ch)"
      by (auto simp: subnodes_eq [of n] descendants_def)
    from "1.prems"(1) have "distinct (concat (map (map nid \<circ> subnodes) (iter_child_nodes n)))"
      by (simp add: node_ids_def subnodes_eq [of n] descendants_def map_concat)
    with ch have "distinct (node_ids ch)"
      by (auto simp: node_ids_def distinct_concat_iff)
    from "1.IH" [OF ch this m] show ?thesis .
  qed
qed

lemma distinct_not_own_descendant:
  "distinct (node_ids n) \<Longrightarrow> nid n \<notin> nid ` set (descendants n)"
  by (auto simp: node_ids_def subnodes_eq [of n])

lemma set_walk_queue:
  "set (walk_queue todo) = (\<Union>n \<in> set todo. set (subnodes n))"
proof (induction todo rule: walk_queue.induct)
  case 1
  show ?case by simp
next
  case (2 n todo)
  then show ?case
    by (auto simp: subnodes_eq [of n] descendants_def)
qed

lemma set_walk: "set (walk tree) = set (subnodes tree)"
  by (simp add: walk_def set_walk_queue del: walk_queue.simps)


section \<open>Structural containment\<close>

text \<open>
  C10. Structural containment is strict. In a tree (no object occurs twice, so the
  identities of its nodes are pairwise distinct) no node contains itself, a node of the
  tree counts as a parent of the target only if it is another object than the target and
  reaches it through at least one child edge, and the root is never its own parent, whatever
  its class.
\<close>

theorem contains_node_strict:
  assumes "distinct (node_ids tree)"
  shows "(\<forall>n \<in> set (walk tree). \<not> contains_node n n)
       \<and> (has_parent_with_class target cls tree \<longrightarrow>
            (\<exists>m \<in> set (walk tree). cls (kind m) \<and> nid m \<noteq> nid target \<and> contains_node m target))
       \<and> \<not> has_parent_with_class tree cls tree"
proof (intro conjI ballI impI)
  fix n assume "n \<in> set (walk tree)"
  then have "distinct (node_ids n)"
    using assms distinct_subnode by (simp add: set_walk)
  then show "\<not> contains_node n n"
    using contains_node_descendant [of n n] distinct_not_own_descendant [of n] by blast
next
  assume "has_parent_with_class target cls tree"
  then obtain m where m: "m \<in> set (walk tree)" "cls (kind m)" "contains_node m target"
    by (auto simp: has_parent_with_class_def list_ex_iff)
  from m(1) have "distinct (node_ids m)"
    using assms distinct_subnode by (simp add: set_walk)
  with m(3) have "nid m \<noteq> nid target"
    using contains_node_descendant [of m target] distinct_not_own_descendant [of m] by force
  with m show "\<exists>m \<in> set (walk tree). cls (kind m) \<and> nid m \<noteq> nid target \<and> contains_node m target"
    by blast
next
  show "\<not> has_parent_with_class tree cls tree"
  proof
    assume "has_parent_with_class tree cls tree"
    then obtain m where m: "m \<in> set (subnodes tree)" "contains_node m tree"
      by (auto simp: has_parent_with_class_def list_ex_iff set_walk)
    from m(2) have "nid tree \<in> nid ` set (descendants m)"
      by (rule contains_node_descendant)
    moreover have "set (descendants m) \<subseteq> set (descendants tree)"
      using m(1) descendants_trans [of m tree] by (auto simp: subnodes_eq [of tree])
    ultimately have "nid tree \<in> nid ` set (descendants tree)" by blast
    with distinct_not_own_descendant [OF assms] show False by simp
  qed
qed

theorem contains_node_strict_witness:
  "distinct (node_ids (Node 10 Expr [] [(F_value, Node 11 OtherExpr [] [])]))
   \<and> \<not> contains_node (Node 11 OtherExpr [] []) (Node 11 OtherExpr [] [])
   \<and> \<not> has_parent_with_class (Node 10 Expr [] [(F_value, Node 11 OtherExpr [] [])]) is_stmt
         (Node 10 Expr [] [(F_value, Node 11 OtherExpr [] [])])"
proof -
  let ?leaf = "Node 11 OtherExpr [] []"
  let ?t = "Node 10 Expr [] [(F_value, ?leaf)]"
  have sub: "subnodes ?t = [?t, ?leaf]"
    by (simp add: subnodes.simps iter_child_nodes_def)
  have d: "distinct (node_ids ?t)"
    by (simp add: node_ids_def sub)
  have "?leaf \<in> set (walk ?t)"
    by (simp add: set_walk sub)
  with contains_node_strict [OF d, of ?leaf is_stmt] d show ?thesis
    by blast
qed

section \<open>The position comparison\<close>

text \<open>
  C3. The comparison is meant to be the lexicographic one on \<open>(lineno, col_offset)\<close>.
  Its fourth test compares \<^verbatim>\<open>n2.col_offset\<close> with itself, so on one line a smaller
  column is reported as equal: the node at \<open>(1, 0)\<close> compared with the node at \<open>(1, 5)\<close>
  gives \<open>0\<close>, not a negative number.
\<close>

theorem compare_node_positions_same_line_smaller_column:
  "(1, 0) < ((1, 5) :: pos)
   \<and> compare_node_positions (Store [10 \<mapsto> (1, 0), 11 \<mapsto> (1, 5)] Map.empty)
        (Node 10 OtherExpr [] []) (Node 11 OtherExpr [] []) = Inr 0"
  by (simp add: compare_node_positions_def start_pos_def)


section \<open>The ordered children\<close>






section \<open>The precondition on the source\<close>

lemma strip_empty_iff: "strip source = [] \<longleftrightarrow> (\<forall>c \<in> set source. is_space c)"
proof
  assume "strip source = []"
  then have "\<forall>c \<in> set (dropWhile is_space source). is_space c"
    by (simp add: strip_def)
  moreover have "dropWhile is_space source \<noteq> [] \<Longrightarrow> \<not> is_space (hd (dropWhile is_space source))"
    by (rule hd_dropWhile)
  ultimately have "dropWhile is_space source = []"
    by (cases "dropWhile is_space source") auto
  then show "\<forall>c \<in> set source. is_space c"
    by simp
next
  assume "\<forall>c \<in> set source. is_space c"
  then show "strip source = []"
    by (auto simp: strip_def dest: set_dropWhileD)
qed

text \<open>
  C7. On a source that is empty or consists of white space only, \<^verbatim>\<open>mark_text_ranges\<close>
  raises the AssertionError of its precondition (the spec's EmptySourceError), whatever
  the tokenizer would do, and the store of position attributes is as it was. On any other
  source the stripped text is non-empty and the tokenizer is reached: if it raises, that
  exception is the outcome.
\<close>

theorem mark_text_ranges_empty_source:
  "((\<forall>c \<in> set source. is_space c) \<longrightarrow>
      mark_text_ranges tokenize s node source = Inl (AssertionError ''source must be non-empty'', s))
   \<and> ((\<exists>c \<in> set source. \<not> is_space c) \<longrightarrow>
        0 < length (strip source)
        \<and> (\<forall>e. tokenize source = Inl e \<longrightarrow> mark_text_ranges tokenize s node source = Inl (e, s)))"
  using strip_empty_iff [of source]
  by (auto simp: mark_text_ranges_def)

theorem mark_text_ranges_empty_source_witness:
  "list_all is_space (asc '' '')
   \<and> mark_text_ranges (\<lambda>_. Inr call_tokens) call_store call_tree (asc '' '')
       = Inl (AssertionError ''source must be non-empty'', call_store)
   \<and> (\<exists>c \<in> set call_source. \<not> is_space c)
   \<and> 0 < length (strip call_source)
   \<and> mark_text_ranges (\<lambda>_. Inl TypeError) call_store call_tree call_source = Inl (TypeError, call_store)"
proof -
  have a: "\<forall>c \<in> set (asc '' ''). is_space c"
    by (simp add: asc_def is_space_def)
  have b: "\<exists>c \<in> set call_source. \<not> is_space c"
    by (simp add: call_source_def asc_def is_space_def)
  from a mark_text_ranges_empty_source [of "asc '' ''" "\<lambda>_. Inr call_tokens" call_store call_tree]
  have "mark_text_ranges (\<lambda>_. Inr call_tokens) call_store call_tree (asc '' '')
       = Inl (AssertionError ''source must be non-empty'', call_store)" by blast
  moreover from b mark_text_ranges_empty_source [of call_source "\<lambda>_. Inl TypeError" call_store call_tree]
  have "0 < length (strip call_source)
      \<and> mark_text_ranges (\<lambda>_. Inl TypeError) call_store call_tree call_source = Inl (TypeError, call_store)"
    by blast
  ultimately show ?thesis using a b by (simp add: list_all_iff)
qed

section \<open>The tokenizer adapter returns nothing\<close>

text \<open>
  C6. The adapter is meant to return the translated tokens. It builds the list
  \<^verbatim>\<open>thokens\<close> and then ends without a \<^verbatim>\<open>return\<close> statement: whatever the source,
  the call never evaluates to a token sequence. Where \<^verbatim>\<open>tokenize.ENCODING\<close> exists the
  source \<^verbatim>\<open>x\<close> gives \<^verbatim>\<open>None\<close>; under Python 2, where it does not, the first token
  raises AttributeError.
\<close>

theorem tokenize_with_char_offsets_returns_None:
  "tokenize_with_char_offsets encoding_type tokenize source \<noteq> Inr (Some thokens)
   \<and> tokenize_with_char_offsets (Some ENCODING)
        (\<lambda>_. Inr [Token ENCODING (asc ''utf-8'') (0, 0) (0, 0), Token NAME (asc ''x'') (1, 0) (1, 1),
                   Token NEWLINE [] (1, 1) (1, 2), Token ENDMARKER [] (2, 0) (2, 0)])
        (asc ''x'') = Inr None
   \<and> tokenize_with_char_offsets None
        (\<lambda>_. Inr [Token NAME (asc ''x'') (1, 0) (1, 1), Token ENDMARKER [] (2, 0) (2, 0)])
        (asc ''x'') = Inl AttributeError"
  by (simp add: tokenize_with_char_offsets_def split_newline_def unfold_python split: sum.splits)

section \<open>Properties of the token-window functions\<close>

lemma strip_junk_Nil [simp]: "strip_trailing_junk_from_expressions [] = Inl IndexError"
  by (subst strip_trailing_junk_from_expressions.simps) simp

lemma strip_stmt_Nil [simp]: "strip_statement_tail [] = Inl IndexError"
  by (subst strip_statement_tail.simps) simp
















section \<open>The nodes a walk visits\<close>













section \<open>Stores that agree on a subtree\<close>

lemma store_simps [simp]:
  "start_pos (set_end s n p) m = start_pos s m"
  "end_pos (set_end s n p) m = (if nid m = nid n then Some p else end_pos s m)"
  "start_pos (set_start s n p) m = (if nid m = nid n then Some p else start_pos s m)"
  "end_pos (set_start s n p) m = end_pos s m"
  by (simp_all add: start_pos_def end_pos_def set_start_def set_end_def)



lemma agree_on_trans: "agree_on ns a b \<Longrightarrow> agree_on ns b c \<Longrightarrow> agree_on ns a c"
  by (simp add: agree_on_def)



lemma unchanged_refl [simp]: "unchanged_outside ns a a"
  by (simp add: unchanged_outside_def)


lemma unchanged_mono:
  "unchanged_outside ns a b \<Longrightarrow> set ns \<subseteq> set ks \<Longrightarrow> unchanged_outside ks a b"
  by (auto simp: unchanged_outside_def)

lemma unchanged_set_end [simp]: "n \<in> set ns \<Longrightarrow> unchanged_outside ns s (set_end s n p)"
  by (auto simp: unchanged_outside_def set_end_def)

lemma unchanged_set_start [simp]: "n \<in> set ns \<Longrightarrow> unchanged_outside ns s (set_start s n p)"
  by (auto simp: unchanged_outside_def set_start_def)






section \<open>The token window is in document order\<close>












section \<open>Invariants of the range-marking walk\<close>




section \<open>Ranges after marking\<close>






section \<open>Exhausted token windows\<close>




section \<open>Trailing commas\<close>






section \<open>Keyword arguments of a call\<close>








end
